theory Spec2Isabelle
  imports Main
begin

section \<open>Characters and the string methods the converter calls\<close>

text \<open>
  A document is a Python \<open>str\<close>: a sequence of code points. The model is over the code
  points below 256, one \<^typ>\<open>char\<close> each, so \<^const>\<open>length\<close> counts what Python's
  \<open>len\<close> counts.
\<close>

definition NL :: char where
  "NL = CHR 0x0A"

text \<open>\<open>str.isspace\<close> on one code point, which is also the class \<open>\s\<close> of \<open>re\<close>.\<close>

definition isspace :: "char \<Rightarrow> bool" where
  "isspace c = (of_char c \<in> set [9, 10, 11, 12, 13, 28, 29, 30, 31, 32, 133, 160 :: nat])"

text \<open>The class \<open>\d\<close>: the decimal digits.\<close>

definition isdigit :: "char \<Rightarrow> bool" where
  "isdigit c = (48 \<le> (of_char c :: nat) \<and> (of_char c :: nat) \<le> 57)"

text \<open>\<open>str.lower\<close>: the upper-case letters below code point 256 move up by 32.\<close>

definition lower_char :: "char \<Rightarrow> char" where
  "lower_char c =
     (let n = (of_char c :: nat)
      in if (65 \<le> n \<and> n \<le> 90) \<or> (192 \<le> n \<and> n \<le> 222 \<and> n \<noteq> 215)
         then char_of (n + 32) else c)"

definition lower :: "string \<Rightarrow> string" where
  "lower s = map lower_char s"

definition upper_ascii :: "char \<Rightarrow> char" where
  "upper_ascii c =
     (let n = (of_char c :: nat) in if 97 \<le> n \<and> n \<le> 122 then char_of (n - 32) else c)"

text \<open>\<open>str.strip()\<close> removes the white space at both ends.\<close>

definition lstrip :: "string \<Rightarrow> string" where
  "lstrip s = dropWhile isspace s"

definition rstrip :: "string \<Rightarrow> string" where
  "rstrip s = rev (dropWhile isspace (rev s))"

definition strip :: "string \<Rightarrow> string" where
  "strip s = rstrip (lstrip s)"

text \<open>
  \<open>str.splitlines()\<close>: a line ends at \<open>\n\<close>, \<open>\r\<close>, \<open>\r\n\<close>, \<open>\v\<close>, \<open>\f\<close>, \<open>\x1c\<close>,
  \<open>\x1d\<close>, \<open>\x1e\<close> or \<open>\x85\<close>; the ends are dropped and there is no empty last line.
\<close>

definition is_linebreak :: "char \<Rightarrow> bool" where
  "is_linebreak c = (of_char c \<in> set [10, 11, 12, 13, 28, 29, 30, 133 :: nat])"

fun splitlines_acc :: "string \<Rightarrow> string \<Rightarrow> string list" where
  "splitlines_acc acc [] = (if acc = [] then [] else [rev acc])"
| "splitlines_acc acc (c # cs) =
     (if c = CHR 0x0D \<and> cs \<noteq> [] \<and> hd cs = NL then rev acc # splitlines_acc [] (tl cs)
      else if is_linebreak c then rev acc # splitlines_acc [] cs
      else splitlines_acc (c # acc) cs)"

definition splitlines :: "string \<Rightarrow> string list" where
  "splitlines s = splitlines_acc [] s"

text \<open>\<open>str.endswith\<close> with a tuple of suffixes.\<close>

definition endswith :: "string \<Rightarrow> string list \<Rightarrow> bool" where
  "endswith s sufs = list_ex (\<lambda>suf. length suf \<le> length s \<and> drop (length s - length suf) s = suf) sufs"

definition startswith :: "string \<Rightarrow> string list \<Rightarrow> bool" where
  "startswith s pres = list_ex (\<lambda>p. take (length p) s = p) pres"

text \<open>\<open>str(n)\<close> for a non-negative integer.\<close>

definition digit_char :: "nat \<Rightarrow> char" where
  "digit_char d = char_of (48 + d)"

fun str_nat :: "nat \<Rightarrow> string" where
  "str_nat n = (if n < 10 then [digit_char n] else str_nat (n div 10) @ [digit_char (n mod 10)])"

declare str_nat.simps [simp del]

section \<open>Errors\<close>

datatype error =
    RuntimeError string
  | ValueError string
  | IndexError nat
  | KeyError string
  | AttributeError string
  | TypeError string
  | OSError string
  | NotModelled string

section \<open>Regular expressions: the fragment of \<open>re\<close> the rules are written in\<close>

text \<open>
  One character: a literal, \<open>.\<close> (anything but a newline), \<open>\s\<close>, \<open>\S\<close>, \<open>\d\<close>, and the
  bracket classes \<open>[...]\<close> and \<open>[^...]\<close> over these.
\<close>

datatype item = C char | Space | NonSpace | Digit

datatype chset = One item | Dot | OneOf "item list" | NoneOf "item list"

fun item_ok :: "item \<Rightarrow> char \<Rightarrow> bool" where
  "item_ok (C d) c = (c = d)"
| "item_ok Space c = isspace c"
| "item_ok NonSpace c = (\<not> isspace c)"
| "item_ok Digit c = isdigit c"

fun accepts :: "chset \<Rightarrow> char \<Rightarrow> bool" where
  "accepts (One i) c = item_ok i c"
| "accepts Dot c = (c \<noteq> NL)"
| "accepts (OneOf is) c = list_ex (\<lambda>i. item_ok i c) is"
| "accepts (NoneOf is) c = (\<not> list_ex (\<lambda>i. item_ok i c) is)"

text \<open>
  Patterns. Every quantifier of the rules stands on one character or class, so \<open>Rep\<close>
  repeats a \<^typ>\<open>chset\<close>: \<open>Rep greedy lo hi x\<close> is \<open>x{lo,hi}\<close> (\<open>hi = None\<close>: unbounded),
  lazy when \<open>greedy\<close> is false. \<open>Lookbehind w r\<close> is \<open>(?<=r)\<close> for \<open>r\<close> of the fixed width
  \<open>w\<close>.
\<close>

datatype re =
    Eps
  | Sym chset
  | Seq re re
  | Alt re re
  | Rep bool nat "nat option" chset
  | Group nat re
  | Backref nat
  | Lookahead re
  | Lookbehind nat re

fun lit :: "string \<Rightarrow> re" where
  "lit [] = Eps"
| "lit (c # cs) = Seq (Sym (One (C c))) (lit cs)"

fun seqs :: "re list \<Rightarrow> re" where
  "seqs [] = Eps"
| "seqs [r] = r"
| "seqs (r # rs) = Seq r (seqs rs)"

text \<open>
  A position in the subject is the text before it, reversed, and the text after it; a
  matcher state adds the groups captured so far (latest first).
\<close>

type_synonym groups = "(nat \<times> string) list"
type_synonym mstate = "string \<times> string \<times> groups"

text \<open>
  The ways \<open>x{lo,hi}\<close> can match at a position, in the order the backtracking matcher
  tries them: longest first when greedy, shortest first when lazy.
\<close>

fun rep :: "bool \<Rightarrow> chset \<Rightarrow> nat \<Rightarrow> nat option \<Rightarrow> string \<Rightarrow> string \<Rightarrow> (string \<times> string) list" where
  "rep g x lo hi bef [] = (if lo = 0 then [(bef, [])] else [])"
| "rep g x lo hi bef (c # cs) =
     (let stop = (if lo = 0 then [(bef, c # cs)] else []);
          more = (if accepts x c \<and> hi \<noteq> Some 0
                  then rep g x (lo - 1) (map_option (\<lambda>h. h - 1) hi) (c # bef) cs else [])
      in if g then more @ stop else stop @ more)"

text \<open>
  The backtracking matcher, as the list of its successes in the order it finds them: the
  head of the list is the match \<open>re\<close> returns. A lookaround is atomic and keeps the groups
  of its first success.
\<close>

fun rmatch :: "re \<Rightarrow> mstate \<Rightarrow> mstate list" where
  "rmatch Eps st = [st]"
| "rmatch (Sym x) (bef, aft, gs) =
     (case aft of [] \<Rightarrow> [] | c # cs \<Rightarrow> if accepts x c then [(c # bef, cs, gs)] else [])"
| "rmatch (Seq r1 r2) st = concat (map (rmatch r2) (rmatch r1 st))"
| "rmatch (Alt r1 r2) st = rmatch r1 st @ rmatch r2 st"
| "rmatch (Rep g lo hi x) (bef, aft, gs) = map (\<lambda>(b, a). (b, a, gs)) (rep g x lo hi bef aft)"
| "rmatch (Group n r) (bef, aft, gs) =
     map (\<lambda>(b, a, gs'). (b, a, (n, rev (take (length b - length bef) b)) # gs'))
       (rmatch r (bef, aft, gs))"
| "rmatch (Backref n) (bef, aft, gs) =
     (case map_of gs n of
        None \<Rightarrow> []
      | Some t \<Rightarrow> if take (length t) aft = t then [(rev t @ bef, drop (length t) aft, gs)] else [])"
| "rmatch (Lookahead r) (bef, aft, gs) =
     (case rmatch r (bef, aft, gs) of [] \<Rightarrow> [] | (_, _, gs') # _ \<Rightarrow> [(bef, aft, gs')])"
| "rmatch (Lookbehind w r) (bef, aft, gs) =
     (if length bef < w then []
      else case rmatch r (drop w bef, rev (take w bef) @ aft, gs) of
             [] \<Rightarrow> [] | (_, _, gs') # _ \<Rightarrow> [(bef, aft, gs')])"

text \<open>
  \<open>search\<close>: the first position at or after the current one where the pattern matches,
  with the text skipped to reach it, whether the match is empty, and the state at its
  end. With \<open>adv\<close> (set after an empty match) an empty match at the starting position
  itself is not accepted.
\<close>

fun search :: "re \<Rightarrow> bool \<Rightarrow> string \<Rightarrow> string \<Rightarrow> (string \<times> bool \<times> mstate) option" where
  "search r adv bef [] =
     (case filter (\<lambda>(b, a, g). \<not> adv) (rmatch r (bef, [], [])) of
        [] \<Rightarrow> None
      | st # _ \<Rightarrow> Some ([], True, st))"
| "search r adv bef (c # cs) =
     (case filter (\<lambda>(b, a, g). \<not> adv \<or> length a < Suc (length cs)) (rmatch r (bef, c # cs, [])) of
        (b, a, g) # _ \<Rightarrow> Some ([], length a = Suc (length cs), (b, a, g))
      | [] \<Rightarrow> map_option (\<lambda>(skipped, m). (c # skipped, m)) (search r False (c # bef) cs))"


text \<open>What a match consumes is a prefix of the text after the position.\<close>

lemma rep_consumes:
  "(b', a') \<in> set (rep g x lo hi b a) \<Longrightarrow> \<exists>u. a = u @ a' \<and> b' = rev u @ b"
proof (induction a arbitrary: b lo hi)
  case Nil
  then show ?case by (simp split: if_splits)
next
  case (Cons c cs)
  from Cons.prems consider
      (stop) "(b', a') = (b, c # cs)"
    | (more) "(b', a') \<in> set (rep g x (lo - 1) (map_option (\<lambda>h. h - 1) hi) (c # b) cs)"
    by (auto simp: Let_def split: if_splits)
  then show ?case
  proof cases
    case stop
    then show ?thesis by simp
  next
    case more
    from Cons.IH [OF more] obtain u where "cs = u @ a'" "b' = rev u @ c # b" by blast
    then have "c # cs = (c # u) @ a' \<and> b' = rev (c # u) @ b" by simp
    then show ?thesis by blast
  qed
qed

lemma rmatch_consumes:
  "(b', a', gs') \<in> set (rmatch r (b, a, gs)) \<Longrightarrow> \<exists>u. a = u @ a' \<and> b' = rev u @ b"
proof (induction r arbitrary: b a gs b' a' gs')
  case Eps
  then show ?case by simp
next
  case (Sym x)
  then show ?case by (cases a) (auto split: if_splits)
next
  case (Seq r1 r2)
  from Seq.prems obtain b1 a1 g1 where
    m1: "(b1, a1, g1) \<in> set (rmatch r1 (b, a, gs))" and
    m2: "(b', a', gs') \<in> set (rmatch r2 (b1, a1, g1))"
    by auto
  from Seq.IH(1) [OF m1] obtain u where u: "a = u @ a1" "b1 = rev u @ b" by blast
  from Seq.IH(2) [OF m2] obtain w where w: "a1 = w @ a'" "b' = rev w @ b1" by blast
  from u w have "a = (u @ w) @ a' \<and> b' = rev (u @ w) @ b" by simp
  then show ?case by blast
next
  case (Alt r1 r2)
  then show ?case by auto
next
  case (Rep g lo hi x)
  then show ?case by (auto dest: rep_consumes)
next
  case (Group n r)
  then show ?case by auto
next
  case (Backref n)
  then show ?case
    by (auto split: option.splits if_splits intro: exI [of _ "take (length _) a"])
       (metis append_take_drop_id)
next
  case (Lookahead r)
  then show ?case by (auto split: list.splits)
next
  case (Lookbehind w r)
  then show ?case by (auto split: list.splits if_splits)
qed

lemma search_span:
  "search r adv bef aft = Some (sk, emp, (b', a', g)) \<Longrightarrow>
     \<exists>u. aft = sk @ u @ a' \<and> b' = rev u @ rev sk @ bef \<and> (emp \<longleftrightarrow> u = []) \<and>
         (adv \<and> sk = [] \<longrightarrow> u \<noteq> [])"
proof (induction aft arbitrary: bef adv sk)
  case Nil
  from Nil obtain rest where f: "filter (\<lambda>(b, a, g). \<not> adv) (rmatch r (bef, [], [])) = (b', a', g) # rest"
    and sk: "sk = []" and emp: "emp"
    by (auto split: list.splits)
  from f have "(b', a', g) \<in> set (filter (\<lambda>(b, a, g). \<not> adv) (rmatch r (bef, [], [])))" by simp
  then have mem: "(b', a', g) \<in> set (rmatch r (bef, [], []))" and na: "\<not> adv" by auto
  from rmatch_consumes [OF mem] have "a' = []" "b' = bef" by auto
  with sk emp na show ?case by simp
next
  case (Cons c cs)
  let ?P = "\<lambda>(b, a, g). \<not> adv \<or> length a < Suc (length cs)"
  show ?case
  proof (cases "filter ?P (rmatch r (bef, c # cs, []))")
    case Nil
    with Cons.prems obtain sk' where
      s: "search r False (c # bef) cs = Some (sk', emp, (b', a', g))" and sk: "sk = c # sk'"
      by auto
    from Cons.IH [OF s] obtain u where
      "cs = sk' @ u @ a'" "b' = rev u @ rev sk' @ c # bef" "emp \<longleftrightarrow> u = []" by blast
    with sk show ?thesis by auto
  next
    case (Cons st rest)
    with Cons.prems have st: "st = (b', a', g)" and sk: "sk = []"
      and emp: "emp \<longleftrightarrow> length a' = Suc (length cs)"
      by (auto split: prod.splits)
    from Cons st have "(b', a', g) \<in> set (filter ?P (rmatch r (bef, c # cs, [])))" by simp
    then have mem: "(b', a', g) \<in> set (rmatch r (bef, c # cs, []))"
      and adv: "\<not> adv \<or> length a' < Suc (length cs)" by auto
    from rmatch_consumes [OF mem] obtain u where u: "c # cs = u @ a'" "b' = rev u @ bef" by blast
    from u(1) have len: "Suc (length cs) = length u + length a'"
      by (metis length_Cons length_append)
    from u sk emp adv len show ?thesis by auto
  qed
qed

section \<open>\<open>re.sub\<close>\<close>

text \<open>
  The vault is the list \<open>preserved_blobs\<close>. A replacement is a template string with group
  references, or a function of the match that may raise and, through \<open>preserve\<close>, may
  append to the vault.
\<close>

type_synonym vault = "string list"

datatype piece = T string | G nat

datatype repl = Template "piece list" | Callback "groups \<Rightarrow> vault \<Rightarrow> error + string \<times> vault"

definition group :: "groups \<Rightarrow> nat \<Rightarrow> string option" where
  "group m n = map_of m n"

text \<open>In a template a group that took no part in the match expands to the empty string.\<close>

fun expand_piece :: "groups \<Rightarrow> piece \<Rightarrow> string" where
  "expand_piece m (T s) = s"
| "expand_piece m (G n) = (case group m n of None \<Rightarrow> [] | Some s \<Rightarrow> s)"

fun expand :: "repl \<Rightarrow> groups \<Rightarrow> vault \<Rightarrow> error + string \<times> vault" where
  "expand (Template ps) m v = Inr (concat (map (expand_piece m) ps), v)"
| "expand (Callback f) m v = f m v"

text \<open>
  The loop of \<open>re.sub\<close>: find the next match, copy the text skipped, append the
  replacement, go on from the end of the match; after an empty match the next one must
  advance. An exception of the replacement function ends the substitution.
\<close>

function sub_from :: "re \<Rightarrow> repl \<Rightarrow> bool \<Rightarrow> string \<Rightarrow> string \<Rightarrow> vault \<Rightarrow> error + string \<times> vault" where
  "sub_from r f adv bef aft v =
     (case search r adv bef aft of
        None \<Rightarrow> Inr (aft, v)
      | Some (skipped, emp, (b, a, gs)) \<Rightarrow>
          (case expand f gs v of
             Inl e \<Rightarrow> Inl e
           | Inr (out, v') \<Rightarrow>
               (case sub_from r f emp b a v' of
                  Inl e \<Rightarrow> Inl e
                | Inr (rest, v'') \<Rightarrow> Inr (skipped @ out @ rest, v''))))"
  by pat_completeness auto
termination
proof (relation "measure (\<lambda>(r, f, adv, bef, aft, v). 2 * length aft + (if adv then 0 else 1))")
  show "wf (measure (\<lambda>(r, f, adv, bef, aft, v). 2 * length aft + (if adv then 0 else 1)))"
    by simp
next
  fix r :: re and f :: repl and adv bef aft and v :: vault
    and x2 skipped y emp ya b yb a gs x2a xb out v'
  assume "search r adv bef aft = Some x2" "(skipped, y) = x2" "(emp, ya) = y"
    "(b, yb) = ya" "(a, gs) = yb"
  then have "search r adv bef aft = Some (skipped, emp, (b, a, gs))" by simp
  from search_span [OF this] obtain u where
    "aft = skipped @ u @ a" "emp \<longleftrightarrow> u = []" "adv \<and> skipped = [] \<longrightarrow> u \<noteq> []" by blast
  then show "((r, f, emp, b, a, v'), (r, f, adv, bef, aft, v))
      \<in> measure (\<lambda>(r, f, adv, bef, aft, v). 2 * length aft + (if adv then 0 else 1))"
    by (cases skipped; cases u) auto
qed

declare sub_from.simps [simp del]

definition sub :: "re \<Rightarrow> repl \<Rightarrow> string \<Rightarrow> vault \<Rightarrow> error + string \<times> vault" where
  "sub r f s v = sub_from r f False [] s v"

text \<open>\<open>re.match\<close>: the match at the start of the string, if there is one.\<close>

definition re_match :: "re \<Rightarrow> string \<Rightarrow> groups option" where
  "re_match r s = (case rmatch r ([], s, []) of [] \<Rightarrow> None | (b, a, gs) # _ \<Rightarrow> Some gs)"


text \<open>
  \<open>re.finditer\<close>: the matches of a pattern in a string, found as \<open>re.sub\<close> finds them.
\<close>

function finditer_from :: "re \<Rightarrow> bool \<Rightarrow> string \<Rightarrow> string \<Rightarrow> groups list" where
  "finditer_from r adv bef aft =
     (case search r adv bef aft of
        None \<Rightarrow> []
      | Some (skipped, emp, (b, a, gs)) \<Rightarrow> gs # finditer_from r emp b a)"
  by pat_completeness auto
termination
proof (relation "measure (\<lambda>(r, adv, bef, aft). 2 * length aft + (if adv then 0 else 1))")
  show "wf (measure (\<lambda>(r, adv, bef, aft). 2 * length aft + (if adv then 0 else 1)))"
    by simp
next
  fix r :: re and adv bef aft x2 skipped y emp ya b yb a gs
  assume "search r adv bef aft = Some x2" "(skipped, y) = x2" "(emp, ya) = y"
    "(b, yb) = ya" "(a, gs) = yb"
  then have "search r adv bef aft = Some (skipped, emp, (b, a, gs))" by simp
  from search_span [OF this] obtain u where
    "aft = skipped @ u @ a" "emp \<longleftrightarrow> u = []" "adv \<and> skipped = [] \<longrightarrow> u \<noteq> []" by blast
  then show "((r, emp, b, a), (r, adv, bef, aft))
      \<in> measure (\<lambda>(r, adv, bef, aft). 2 * length aft + (if adv then 0 else 1))"
    by (cases skipped; cases u) auto
qed

declare finditer_from.simps [simp del]

definition finditer :: "re \<Rightarrow> string \<Rightarrow> groups list" where
  "finditer r s = finditer_from r False [] s"

section \<open>The converter\<close>

subsection \<open>The slugifier table\<close>

text \<open>
  \<open>slugify\<close> is a \<open>defaultdict(str)\<close> filled by two loops: the four characters of
  \<open>'_- /'\<close> map to a hyphen, and each lower-case letter and digit maps to itself, as
  does its upper-case form. A key that was never stored reads as the empty string.
\<close>

definition ascii_lowercase :: string where
  "ascii_lowercase = ''abcdefghijklmnopqrstuvwxyz''"

definition digits :: string where
  "digits = ''0123456789''"

definition slugify_dict :: "char \<rightharpoonup> string" where
  "slugify_dict =
     fold (\<lambda>c d. (d(c \<mapsto> [c]))(upper_ascii c \<mapsto> [c])) (ascii_lowercase @ digits)
       (fold (\<lambda>c d. d(c \<mapsto> ''-'')) ''_- /'' Map.empty)"

definition slugify :: "char \<Rightarrow> string" where
  "slugify c = (case slugify_dict c of None \<Rightarrow> [] | Some s \<Rightarrow> s)"

text \<open>\<open>str.translate\<close> with a table of strings.\<close>

definition translate :: "(char \<Rightarrow> string) \<Rightarrow> string \<Rightarrow> string" where
  "translate table s = concat (map table s)"

subsection \<open>The vault\<close>

definition preserve :: "string \<Rightarrow> vault \<Rightarrow> string \<times> vault" where
  "preserve blob v = (''{'' @ str_nat (length (v @ [blob]) - 1) @ ''}'', v @ [blob])"

subsection \<open>The replacement functions\<close>

text \<open>A group read in an f-string: \<open>None\<close> prints as \<open>None\<close>.\<close>

definition fstr :: "string option \<Rightarrow> string" where
  "fstr g = (case g of None \<Rightarrow> ''None'' | Some s \<Rightarrow> s)"

text \<open>\<open>str.replace\<close> for a non-empty \<open>old\<close>: the occurrences from the left, not overlapping.\<close>

fun replace_from :: "string \<Rightarrow> string \<Rightarrow> nat \<Rightarrow> string \<Rightarrow> string" where
  "replace_from old new k [] = []"
| "replace_from old new (Suc k) (c # cs) = replace_from old new k cs"
| "replace_from old new 0 (c # cs) =
     (if take (length old) (c # cs) = old then new @ replace_from old new (length old - 1) cs
      else c # replace_from old new 0 cs)"

definition replace :: "string \<Rightarrow> string \<Rightarrow> string \<Rightarrow> string" where
  "replace s old new = replace_from old new 0 s"

definition blockquote :: "groups \<Rightarrow> vault \<Rightarrow> error + string \<times> vault" where
  "blockquote m v =
     (let before_ch = group m 1; text = group m 2; after = group m 3;
          pre = (if before_ch = Some ''\<newline>'' then ''\<newline><blockquote>'' else []);
          post = (if after = Some ''\<newline>'' then ''</blockquote>'' else ''\<newline><br/>'')
      in case text of
           None \<Rightarrow> Inl (TypeError ''can only concatenate str to str'')
         | Some t \<Rightarrow> Inr (pre @ t @ post, v))"

definition codearea :: "groups \<Rightarrow> vault \<Rightarrow> error + string \<times> vault" where
  \<open>codearea m v =
     (case group m 1 of
        None \<Rightarrow> Inl (AttributeError ''strip'')
      | Some g \<Rightarrow>
          (let code = strip g; n = length (splitlines code)
           in case map length (splitlines code) of
                [] \<Rightarrow> Inl (ValueError ''max() arg is an empty sequence'')
              | l # ls \<Rightarrow>
                  (let m = fold max ls l + 1;
                       blob = ''<textarea class="codearea" rows="'' @ str_nat n @ ''" cols="'' @
                              str_nat m @ ''" readonly>'' @ code @ ''</textarea>''
                   in Inr (preserve blob v))))\<close>

definition description :: "groups \<Rightarrow> vault \<Rightarrow> error + string \<times> vault" where
  "description m v =
     (let term = group m 1; inner = group m 2
      in case inner of
           None \<Rightarrow> Inl (AttributeError ''replace'')
         | Some i \<Rightarrow>
             Inr (''<dt>'' @ fstr term @ ''</dt>\<newline><dd>\<newline>'' @
                  replace i ''\<newline>    '' ''\<newline>'' @ ''\<newline></dd>'', v))"

text \<open>
  \<open>inline\<close> reads the file named by the reference when it inlines source code; \<open>fs\<close> is
  the file system, a path without a readable file giving \<open>None\<close>.
\<close>

definition inline :: "(string \<rightharpoonup> string) \<Rightarrow> groups \<Rightarrow> vault \<Rightarrow> error + string \<times> vault" where
  \<open>inline fs m v =
     (let title = group m 1; src = group m 2
      in case src of
           None \<Rightarrow> Inl (AttributeError ''lower'')
         | Some p \<Rightarrow>
             if endswith (lower p) [''png'', ''jpg'', ''jpeg'', ''gif'', ''svg'']
             then Inr (''<img src="'' @ p @ ''" title="'' @ fstr title @ ''"/>'', v)
             else if endswith (lower p) [''py'', ''js'']
             then (case fs p of
                     None \<Rightarrow> Inl (OSError p)
                   | Some content \<Rightarrow>
                       (case re_match (Group 1 (Rep True 0 None (OneOf [Space, NonSpace]))) content of
                          None \<Rightarrow> Inl (AttributeError ''group'')
                        | Some m' \<Rightarrow> codearea m' v))
             else Inl (RuntimeError (''Cannot inline <'' @ p @ ''>'')))\<close>

definition heading :: "groups \<Rightarrow> vault \<Rightarrow> error + string \<times> vault" where
  \<open>heading m v =
     (let hashes = group m 1; text = group m 2
      in case text of
           None \<Rightarrow> Inl (AttributeError ''translate'')
         | Some t \<Rightarrow>
             (let slug = translate slugify t
              in case hashes of
                   None \<Rightarrow> Inl (TypeError ''object of type NoneType has no len()'')
                 | Some h \<Rightarrow>
                     (let n = length h
                      in Inr (''<h'' @ str_nat n @ '' id="'' @ slug @ ''">'' @ t @ ''</h'' @
                              str_nat n @ ''>'', v))))\<close>

definition ordered_list_item :: "groups \<Rightarrow> vault \<Rightarrow> error + string \<times> vault" where
  "ordered_list_item m v =
     (let before_ch = group m 1; text = group m 2; after = group m 3;
          ol = (if before_ch = Some ''\<newline>'' then ''\<newline><ol>\<newline>'' else []);
          lo = (if after = Some ''\<newline>'' then ''</ol>'' else [])
      in Inr (ol @ ''<li>'' @ fstr text @ ''</li>\<newline>'' @ lo, v))"

definition paragraph_line :: "groups \<Rightarrow> vault \<Rightarrow> error + string \<times> vault" where
  "paragraph_line m v =
     (case group m 1 of
        None \<Rightarrow> Inl (AttributeError ''startswith'')
      | Some line \<Rightarrow>
          if startswith line [''<'', ''{''] then Inr (line, v)
          else Inr (''<p>'' @ line @ ''</p>'', v))"

definition unordered_list_item :: "groups \<Rightarrow> vault \<Rightarrow> error + string \<times> vault" where
  "unordered_list_item m v =
     (let before_ch = group m 1; text = group m 2; after = group m 3;
          ul = (if before_ch = Some ''\<newline>'' then ''\<newline><ul>\<newline>'' else []);
          lu = (if after = Some ''\<newline>'' then ''</ul>'' else [])
      in Inr (ul @ ''<li>'' @ fstr text @ ''</li>\<newline>'' @ lu, v))"

definition verbatim :: "groups \<Rightarrow> vault \<Rightarrow> error + string \<times> vault" where
  "verbatim m v =
     (let tag = group m 1; content = group m 2;
          blob = ''<'' @ fstr tag @ fstr content @ ''</'' @ fstr tag @ ''>''
      in Inr (preserve blob v))"

subsection \<open>The simple replacements\<close>

definition code :: repl where
  "code = Template [T ''<code>'', G 1, T ''</code>'']"

definition strike :: repl where
  "strike = Template [T ''<del>'', G 1, T ''</del>'']"

definition underline :: repl where
  "underline = Template [T ''<u>'', G 1, T ''</u>'']"

definition italics :: repl where
  "italics = Template [T ''<i>'', G 1, T ''</i>'']"

definition bold :: repl where
  "bold = Template [T ''<b>'', G 1, T ''</b>'']"

definition thematic_break :: repl where
  "thematic_break = Template [T ''<hr/>'']"

definition quote :: repl where
  "quote = Template [T ''<blockquote>'', G 1, T ''</blockquote>'']"

definition date :: repl where
  \<open>date = Template [T ''<span class="date">'', G 1, T ''</span>'']\<close>

definition em_dash :: repl where
  "em_dash = Template [T ''&mdash;'']"

definition anchor :: repl where
  \<open>anchor = Template [T ''<a href="'', G 1, T ''">'', G 1, T ''</a>'']\<close>

definition reference :: repl where
  \<open>reference = Template [T ''<a href="'', G 2, T ''">'', G 1, T ''</a>'']\<close>

definition note_text :: repl where
  \<open>note_text = Template [T ''<a id="'', G 1, T ''text" href="#'', G 1, T ''foot">&#91;'', G 1,
                          T ''&#93;</a>'']\<close>

definition note_foot :: repl where
  \<open>note_foot = Template [T ''<a id="'', G 1, T ''foot" href="#'', G 1, T ''text">&#91;'', G 1,
                          T ''&#93;</a>'']\<close>


subsection \<open>The rules\<close>

definition any_char :: chset where
  "any_char = OneOf [NonSpace, Space]"

definition one_char :: re where
  "one_char = Alt (Sym (One Space)) (Sym (One NonSpace))"

text \<open>\<open>```([\S\s]+?)```\<close>\<close>

definition fence_re :: re where
  "fence_re = seqs [lit ''```'', Group 1 (Rep False 1 None any_char), lit ''```'']"

text \<open>\<open><(tag)([\S\s]+?)</\1>\<close>\<close>

definition verbatim_re :: "string \<Rightarrow> re" where
  "verbatim_re tag =
     seqs [lit ''<'', Group 1 (lit tag), Group 2 (Rep False 1 None any_char), lit ''</'', Backref 1,
           lit ''>'']"

text \<open>\<open>(?<=\n)([^\n]+):\n    ([\s\S]+?)(?=\n\n)\<close>\<close>

definition description_re :: re where
  "description_re =
     seqs [Lookbehind 1 (lit ''\<newline>''), Group 1 (Rep True 1 None (NoneOf [C NL])),
           lit '':\<newline>    '', Group 2 (Rep False 1 None (OneOf [Space, NonSpace])),
           Lookahead (lit ''\<newline>\<newline>'')]"

text \<open>\<open>(?<=(\s|\S))\n {4,}(.+)(?=\n(\s|\S))\<close>\<close>

definition blockquote_re :: re where
  "blockquote_re =
     seqs [Lookbehind 1 (Group 1 one_char), lit ''\<newline>'', Rep True 4 None (One (C CHR '' '')),
           Group 2 (Rep True 1 None Dot), Lookahead (Seq (lit ''\<newline>'') (Group 3 one_char))]"

text \<open>\<open>(?<=(\s|\S))\n[-*] (.+)(?=\n(\s|\S))\<close>\<close>

definition unordered_re :: re where
  "unordered_re =
     seqs [Lookbehind 1 (Group 1 one_char), lit ''\<newline>'', Sym (OneOf [C CHR ''-'', C CHR ''*'']),
           lit '' '', Group 2 (Rep True 1 None Dot),
           Lookahead (Seq (lit ''\<newline>'') (Group 3 one_char))]"

text \<open>\<open>(?<=(\s|\S))\n\d+[)] (.+)(?=\n(\s|\S))\<close>\<close>

definition ordered_re :: re where
  "ordered_re =
     seqs [Lookbehind 1 (Group 1 one_char), lit ''\<newline>'', Rep True 1 None (One Digit),
           Sym (OneOf [C CHR '')'']), lit '' '', Group 2 (Rep True 1 None Dot),
           Lookahead (Seq (lit ''\<newline>'') (Group 3 one_char))]"

text \<open>\<open>!\[([^\]]*)\]\(([^\)]+)\)\<close>\<close>

definition inline_re :: re where
  "inline_re =
     seqs [lit ''!['', Group 1 (Rep True 0 None (NoneOf [C CHR '']''])), lit ''](''  ,
           Group 2 (Rep True 1 None (NoneOf [C CHR '')''])), lit '')'']"

text \<open>\<open>(?<=\n)> ([^\n]+)(?=\n)\<close>\<close>

definition quote_re :: re where
  "quote_re =
     seqs [Lookbehind 1 (lit ''\<newline>''), lit ''> '', Group 1 (Rep True 1 None (NoneOf [C NL])),
           Lookahead (lit ''\<newline>'')]"

text \<open>\<open>(?<=\n)(#+) ([^\n]+)(?=\n)\<close>\<close>

definition heading_re :: re where
  "heading_re =
     seqs [Lookbehind 1 (lit ''\<newline>''), Group 1 (Rep True 1 None (One (C CHR ''#''))), lit '' '',
           Group 2 (Rep True 1 None (NoneOf [C NL])), Lookahead (lit ''\<newline>'')]"

text \<open>\<open>(?<=\n)---(?=\n)\<close>\<close>

definition break_re :: re where
  "break_re = seqs [Lookbehind 1 (lit ''\<newline>''), lit ''---'', Lookahead (lit ''\<newline>'')]"

text \<open>\<open>\[(\d+)\]:\<close> and \<open>\[(\d+)\]\<close>\<close>

definition note_foot_re :: re where
  "note_foot_re = seqs [lit ''['', Group 1 (Rep True 1 None (One Digit)), lit '']:'']"

definition note_text_re :: re where
  "note_text_re = seqs [lit ''['', Group 1 (Rep True 1 None (One Digit)), lit '']'']"

text \<open>\<open>(?<=\n)([^\n]+)(?=\n)\<close>\<close>

definition paragraph_re :: re where
  "paragraph_re =
     seqs [Lookbehind 1 (lit ''\<newline>''), Group 1 (Rep True 1 None (NoneOf [C NL])),
           Lookahead (lit ''\<newline>'')]"

text \<open>\<open>\*\*(.+?)\*\*\<close>, \<open>\*(.+?)\*\<close>, \<open>__(.+?)__\<close>, \<open>~~(.+?)~~\<close> and \<open>`(.+?)`\<close>\<close>

definition span_re :: "string \<Rightarrow> re" where
  "span_re mark = seqs [lit mark, Group 1 (Rep False 1 None Dot), lit mark]"

text \<open>\<open>(?<=[\s>])(\d{4}/\d{2}/\d{2})(?=\s)\<close>\<close>

definition date_re :: re where
  "date_re =
     seqs [Lookbehind 1 (Sym (OneOf [Space, C CHR ''>''])),
           Group 1 (seqs [Rep True 4 (Some 4) (One Digit), lit ''/'', Rep True 2 (Some 2) (One Digit),
                          lit ''/'', Rep True 2 (Some 2) (One Digit)]),
           Lookahead (Sym (One Space))]"

text \<open>\<open><(https?://[^>]+?)>\<close>\<close>

definition anchor_re :: re where
  "anchor_re =
     seqs [lit ''<'',
           Group 1 (seqs [lit ''http'', Rep True 0 (Some 1) (One (C CHR ''s'')), lit ''://'',
                          Rep False 1 None (NoneOf [C CHR ''>''])]),
           lit ''>'']"

text \<open>\<open>\[([^\]]+?)\]\(([^\)]+?)\)\<close>\<close>

definition reference_re :: re where
  "reference_re =
     seqs [lit ''['', Group 1 (Rep False 1 None (NoneOf [C CHR '']''])), lit ''](''  ,
           Group 2 (Rep False 1 None (NoneOf [C CHR '')''])), lit '')'']"

definition rules :: "(string \<rightharpoonup> string) \<Rightarrow> (re \<times> repl) list" where
  "rules fs =
     [(fence_re, Callback codearea),
      (verbatim_re ''svg'', Callback verbatim),
      (verbatim_re ''pre'', Callback verbatim),
      (verbatim_re ''style'', Callback verbatim),
      (verbatim_re ''script'', Callback verbatim),
      (description_re, Callback description),
      (blockquote_re, Callback blockquote),
      (unordered_re, Callback unordered_list_item),
      (ordered_re, Callback ordered_list_item),
      (inline_re, Callback (inline fs)),
      (quote_re, quote),
      (heading_re, Callback heading),
      (break_re, thematic_break),
      (note_foot_re, note_foot),
      (note_text_re, note_text),
      (paragraph_re, Callback paragraph_line),
      (span_re ''**'', bold),
      (span_re ''*'', italics),
      (span_re ''__'', underline),
      (span_re ''~~'', strike),
      (span_re ''`'', code),
      (date_re, date),
      (lit ''--'', em_dash),
      (anchor_re, anchor),
      (reference_re, reference)]"

subsection \<open>Resolving the placeholders: \<open>str.format\<close>\<close>

text \<open>
  \<open>str.format\<close> with positional arguments only, as CPython's \<open>MarkupIterator\<close> reads the
  string: literal text, the escapes \<open>{{\<close> and \<open>}}\<close>, and replacement fields. A field is a
  name, up to \<open>}\<close>, \<open>:\<close> or \<open>!\<close> (a bracketed part is skipped to its \<open>]\<close>), an optional
  conversion and an optional format specification.
\<close>

fun parse_name :: "bool \<Rightarrow> string \<Rightarrow> string \<Rightarrow> error + string \<times> char \<times> string" where
  "parse_name br acc [] = Inl (ValueError ''expected } before end of string'')"
| "parse_name br acc (c # cs) =
     (if br then parse_name (c \<noteq> CHR '']'') (c # acc) cs
      else if c = CHR ''{'' then Inl (ValueError ''unexpected { in field name'')
      else if c = CHR ''['' then parse_name True (c # acc) cs
      else if c = CHR ''}'' \<or> c = CHR '':'' \<or> c = CHR ''!'' then Inr (rev acc, c, cs)
      else parse_name False (c # acc) cs)"

fun parse_spec :: "nat \<Rightarrow> string \<Rightarrow> string \<Rightarrow> error + string \<times> string" where
  "parse_spec n acc [] = Inl (ValueError ''unmatched { in format spec'')"
| "parse_spec n acc (c # cs) =
     (if c = CHR ''{'' then parse_spec (Suc n) (c # acc) cs
      else if c = CHR ''}'' then (if n = 1 then Inr (rev acc, cs) else parse_spec (n - 1) (c # acc) cs)
      else parse_spec n (c # acc) cs)"

text \<open>A field: its name, its conversion, its format specification, and the text after it.\<close>

definition parse_field :: "string \<Rightarrow> error + string \<times> char option \<times> string \<times> string" where
  "parse_field s =
     (case parse_name False [] s of
        Inl e \<Rightarrow> Inl e
      | Inr (name, c, rest) \<Rightarrow>
          if c = CHR ''}'' then Inr (name, None, [], rest)
          else if c = CHR '':'' then
            (case parse_spec 1 [] rest of
               Inl e \<Rightarrow> Inl e
             | Inr (spec, rest') \<Rightarrow> Inr (name, None, spec, rest'))
          else
            (case rest of
               [] \<Rightarrow> Inl (ValueError ''end of string while looking for conversion specifier'')
             | conv # rest1 \<Rightarrow>
                 (case rest1 of
                    [] \<Rightarrow> Inl (ValueError ''unmatched { in format spec'')
                  | c2 # rest2 \<Rightarrow>
                      if c2 = CHR ''}'' then Inr (name, Some conv, [], rest2)
                      else if c2 = CHR '':'' then
                        (case parse_spec 1 [] rest2 of
                           Inl e \<Rightarrow> Inl e
                         | Inr (spec, rest') \<Rightarrow> Inr (name, Some conv, spec, rest'))
                      else Inl (ValueError ''expected : after conversion specifier''))))"

text \<open>
  \<open>get_integer\<close>: the index a name of decimal digits denotes; \<open>None\<close> for the empty name and
  for a name with another character; an error above the largest \<open>Py_ssize_t\<close>.
\<close>

fun get_integer_acc :: "int \<Rightarrow> string \<Rightarrow> error + nat option" where
  "get_integer_acc acc [] = Inr (Some (nat acc))"
| "get_integer_acc acc (c # cs) =
     (if \<not> isdigit c then Inr None
      else let d = of_char c - 48
           in if acc > (9223372036854775807 - d) div 10
              then Inl (ValueError ''Too many decimal digits in format string'')
              else get_integer_acc (acc * 10 + d) cs)"

definition get_integer :: "string \<Rightarrow> error + nat option" where
  "get_integer s = (if s = [] then Inr None else get_integer_acc 0 s)"

datatype numbering = ANS_INIT | ANS_AUTO | ANS_MANUAL

text \<open>
  The value of one field. The arguments are strings; an attribute or index after the
  argument's name, the conversions \<open>!r\<close> and \<open>!a\<close> and a non-empty format specification
  are features of \<open>str\<close> outside this model: such a field gives \<open>NotModelled\<close>.
\<close>

definition render_field ::
  "numbering \<Rightarrow> nat \<Rightarrow> string list \<Rightarrow> string \<Rightarrow> char option \<Rightarrow> string \<Rightarrow> error + string \<times> numbering \<times> nat" where
  "render_field st k args name conv spec =
     (let first = takeWhile (\<lambda>c. c \<noteq> CHR ''.'' \<and> c \<noteq> CHR ''['') name
      in case get_integer first of
           Inl e \<Rightarrow> Inl e
         | Inr idx \<Rightarrow>
             (let empty = (first = []);
                  numeric = (empty \<or> idx \<noteq> None);
                  st' = (if st = ANS_INIT \<and> numeric then (if empty then ANS_AUTO else ANS_MANUAL) else st)
              in if numeric \<and> st' = ANS_MANUAL \<and> empty then
                   Inl (ValueError ''cannot switch from manual field specification to automatic field numbering'')
                 else if numeric \<and> st' = ANS_AUTO \<and> \<not> empty then
                   Inl (ValueError ''cannot switch from automatic field numbering to manual field specification'')
                 else
                   (case (if empty then Some k else idx) of
                      None \<Rightarrow> Inl (KeyError first)
                    | Some j \<Rightarrow>
                        if length args \<le> j then Inl (IndexError j)
                        else if first \<noteq> name then Inl (NotModelled ''attribute or index of an argument'')
                        else if conv \<noteq> None \<and> conv \<noteq> Some CHR ''s'' \<and> conv \<noteq> Some CHR ''r''
                                \<and> conv \<noteq> Some CHR ''a'' then
                          Inl (ValueError ''Unknown conversion specifier'')
                        else if conv = Some CHR ''r'' \<or> conv = Some CHR ''a'' then
                          Inl (NotModelled ''repr of an argument'')
                        else if spec \<noteq> [] then Inl (NotModelled ''format specification'')
                        else Inr (args ! j, st', if empty then Suc k else k))))"

lemma parse_name_shorter:
  "parse_name br acc s = Inr (name, c, rest) \<Longrightarrow> length rest < length s"
  by (induction br acc s rule: parse_name.induct) (auto split: if_splits)

lemma parse_spec_shorter:
  "parse_spec n acc s = Inr (spec, rest) \<Longrightarrow> length rest < length s"
  by (induction n acc s rule: parse_spec.induct) (auto split: if_splits)

lemma parse_field_shorter:
  "parse_field s = Inr (name, conv, spec, rest) \<Longrightarrow> length rest < length s"
  unfolding parse_field_def
  by (auto split: sum.splits if_splits list.splits prod.splits
           dest!: parse_name_shorter parse_spec_shorter)

text \<open>
  The loop of \<open>str.format\<close>: the output, and the numbering state after the last field.
\<close>

function format_from :: "numbering \<Rightarrow> nat \<Rightarrow> string list \<Rightarrow> string \<Rightarrow> error + string \<times> numbering \<times> nat" where
  "format_from st k args [] = Inr ([], st, k)"
| "format_from st k args (c # cs) =
     (if c = CHR ''{'' then
        (case cs of
           [] \<Rightarrow> Inl (ValueError ''Single { encountered in format string'')
         | d # ds \<Rightarrow>
             if d = CHR ''{'' then
               (case format_from st k args ds of
                  Inl e \<Rightarrow> Inl e
                | Inr (out, st', k') \<Rightarrow> Inr (CHR ''{'' # out, st', k'))
             else
               (case parse_field cs of
                  Inl e \<Rightarrow> Inl e
                | Inr (name, conv, spec, rest) \<Rightarrow>
                    (case render_field st k args name conv spec of
                       Inl e \<Rightarrow> Inl e
                     | Inr (val, st', k') \<Rightarrow>
                         (case format_from st' k' args rest of
                            Inl e \<Rightarrow> Inl e
                          | Inr (out, st'', k'') \<Rightarrow> Inr (val @ out, st'', k'')))))
      else if c = CHR ''}'' then
        (case cs of
           [] \<Rightarrow> Inl (ValueError ''Single } encountered in format string'')
         | d # ds \<Rightarrow>
             if d = CHR ''}'' then
               (case format_from st k args ds of
                  Inl e \<Rightarrow> Inl e
                | Inr (out, st', k') \<Rightarrow> Inr (CHR ''}'' # out, st', k'))
             else Inl (ValueError ''Single } encountered in format string''))
      else
        (case format_from st k args cs of
           Inl e \<Rightarrow> Inl e
         | Inr (out, st', k') \<Rightarrow> Inr (c # out, st', k')))"
  by pat_completeness auto
termination
proof (relation "measure (\<lambda>(st, k, args, s). length s)")
  show "wf (measure (\<lambda>(st, k, args, s). length s))" by simp
next
  fix st k args c cs d ds
  assume "cs = d # ds"
  then show "((st, k, args, ds), (st, k, args, c # cs)) \<in> measure (\<lambda>(st, k, args, s). length s)"
    by simp
next
  fix st :: numbering and k :: nat and args :: "string list" and c :: char and cs :: string
    and d ds x2 name y conv ya spec rest x2a val yb st' k'
  assume "parse_field cs = Inr x2" "(name, y) = x2" "(conv, ya) = y" "(spec, rest) = ya"
  then have "parse_field cs = Inr (name, conv, spec, rest)" by simp
  from parse_field_shorter [OF this]
  show "((st', k', args, rest), (st, k, args, c # cs)) \<in> measure (\<lambda>(st, k, args, s). length s)"
    by simp
next
  fix st k args c cs d ds
  assume "cs = d # ds"
  then show "((st, k, args, ds), (st, k, args, c # cs)) \<in> measure (\<lambda>(st, k, args, s). length s)"
    by simp
next
  fix st k args c cs
  show "((st, k, args, cs), (st, k, args, c # cs)) \<in> measure (\<lambda>(st, k, args, s). length s)"
    by simp
qed

declare format_from.simps [simp del]

definition format :: "string \<Rightarrow> string list \<Rightarrow> error + string" where
  "format s args =
     (case format_from ANS_INIT 0 args s of Inl e \<Rightarrow> Inl e | Inr (out, st, k) \<Rightarrow> Inr out)"

subsection \<open>\<open>markup\<close>\<close>

fun apply_rules :: "(re \<times> repl) list \<Rightarrow> string \<Rightarrow> vault \<Rightarrow> error + string \<times> vault" where
  "apply_rules [] s v = Inr (s, v)"
| "apply_rules ((fragment, replacement) # rs) s v =
     (case sub fragment replacement s v of
        Inl e \<Rightarrow> Inl e
      | Inr (s', v') \<Rightarrow> apply_rules rs s' v')"

text \<open>
  \<open>markup\<close> clears the vault, puts the document between two newlines, applies the rules
  in their order, strips the result, and resolves the placeholders.
\<close>

definition markup :: "(string \<rightharpoonup> string) \<Rightarrow> string \<Rightarrow> error + string" where
  "markup fs string =
     (case apply_rules (rules fs) (''\<newline>'' @ string @ ''\<newline>'') [] of
        Inl e \<Rightarrow> Inl e
      | Inr (s, preserved_blobs) \<Rightarrow>
          (case format (strip s) preserved_blobs of
             Inl e \<Rightarrow> Inl e
           | Inr out \<Rightarrow> Inr (out @ ''\<newline>'')))"


section \<open>Properties\<close>

subsection \<open>Supporting lemmas\<close>

lemma group_Cons [simp]: "group ((n, t) # m) k = (if k = n then Some t else group m k)"
  by (simp add: group_def)

lemma group_Nil [simp]: "group [] k = None"
  by (simp add: group_def)

lemma codearea_grows: "codearea m v = Inr (t, v') \<Longrightarrow> v' \<noteq> v"
  by (auto simp: codearea_def Let_def preserve_def split: option.splits list.splits)

lemma codearea_error:
  "codearea m v = Inl e \<Longrightarrow>
     e = AttributeError ''strip'' \<or> e = ValueError ''max() arg is an empty sequence''"
  by (auto simp: codearea_def Let_def preserve_def split: option.splits list.splits)

lemma apply_rules_append:
  "apply_rules (xs @ ys) s v =
     (case apply_rules xs s v of Inl e \<Rightarrow> Inl e | Inr (s', v') \<Rightarrow> apply_rules ys s' v')"
  by (induction xs s v rule: apply_rules.induct) (auto split: sum.splits)

lemma sub_first_error:
  "search r False [] d = Some (sk, emp, (b, a, m)) \<Longrightarrow> expand f m v = Inl e \<Longrightarrow> sub r f d v = Inl e"
  by (simp add: sub_def sub_from.simps)

lemma sub_from_raises:
  "m \<in> set (finditer_from r adv bef aft) \<Longrightarrow> (\<And>v'. expand f m v' = Inl E) \<Longrightarrow>
   (\<And>m' v' e. m' \<in> set (finditer_from r adv bef aft) \<Longrightarrow> expand f m' v' = Inl e \<Longrightarrow> e = E) \<Longrightarrow>
   sub_from r f adv bef aft v = Inl E"
proof (induction r adv bef aft arbitrary: v rule: finditer_from.induct)
  case (1 r adv bef aft)
  show ?case
  proof (cases "search r adv bef aft")
    case None
    with "1.prems"(1) show ?thesis by (simp add: finditer_from.simps [of r adv bef aft])
  next
    case (Some res)
    obtain sk emp b a gs where res: "res = (sk, emp, (b, a, gs))" by (metis prod_cases3 prod_cases3)
    have fi: "finditer_from r adv bef aft = gs # finditer_from r emp b a"
      by (simp add: finditer_from.simps [of r adv bef aft] Some res)
    show ?thesis
    proof (cases "expand f gs v")
      case (Inl e)
      have "e = E" by (rule "1.prems"(3) [OF _ Inl]) (simp add: fi)
      with Inl show ?thesis by (simp add: sub_from.simps [of r f adv bef aft] Some res)
    next
      case (Inr ov)
      obtain out v' where ov: "ov = (out, v')" by (cases ov)
      from Inr "1.prems"(2) [of v] have "m \<noteq> gs" by auto
      with "1.prems"(1) fi have mem: "m \<in> set (finditer_from r emp b a)" by simp
      have "sub_from r f emp b a v' = Inl E"
      proof (rule "1.IH" [OF Some _ _ _ _ mem])
        show "(sk, emp, (b, a, gs)) = res" by (simp add: res)
        show "(emp, (b, a, gs)) = (emp, (b, a, gs))" by simp
        show "(b, (a, gs)) = (b, a, gs)" by simp
        show "(a, gs) = (a, gs)" by simp
      next
        fix v'' show "expand f m v'' = Inl E" by (rule "1.prems"(2))
      next
        fix m' v'' e assume "m' \<in> set (finditer_from r emp b a)" "expand f m' v'' = Inl e"
        then show "e = E" using "1.prems"(3) [of m' v'' e] fi by simp
      qed
      then show ?thesis by (simp add: sub_from.simps [of r f adv bef aft] Some res Inr ov)
    qed
  qed
qed


lemma search_mem:
  "search r adv bef aft = Some (sk, emp, st) \<Longrightarrow> \<exists>bef' aft'. st \<in> set (rmatch r (bef', aft', []))"
proof (induction aft arbitrary: bef adv sk)
  case Nil
  then obtain rest where "filter (\<lambda>(b, a, g). \<not> adv) (rmatch r (bef, [], [])) = st # rest"
    by (auto split: list.splits)
  then have "st \<in> set (filter (\<lambda>(b, a, g). \<not> adv) (rmatch r (bef, [], [])))" by simp
  then show ?case by auto
next
  case (Cons c cs)
  let ?P = "\<lambda>(b, a, g). \<not> adv \<or> length a < Suc (length cs)"
  show ?case
  proof (cases "filter ?P (rmatch r (bef, c # cs, []))")
    case Nil
    with Cons.prems obtain sk' where "search r False (c # bef) cs = Some (sk', emp, st)" by auto
    from Cons.IH [OF this] show ?thesis .
  next
    case (Cons st' rest)
    with Cons.prems have "st' = st" by (auto split: prod.splits)
    with Cons have "st \<in> set (filter ?P (rmatch r (bef, c # cs, [])))" by simp
    then show ?thesis by auto
  qed
qed

lemma finditer_from_all:
  "(\<And>bef aft b a gs. (b, a, gs) \<in> set (rmatch r (bef, aft, [])) \<Longrightarrow> P gs) \<Longrightarrow>
   m \<in> set (finditer_from r adv bef aft) \<Longrightarrow> P m"
proof (induction r adv bef aft rule: finditer_from.induct)
  case (1 r adv bef aft)
  show ?case
  proof (cases "search r adv bef aft")
    case None
    with "1.prems"(2) show ?thesis by (simp add: finditer_from.simps [of r adv bef aft])
  next
    case (Some res)
    obtain sk emp b a gs where res: "res = (sk, emp, (b, a, gs))" by (metis prod_cases3 prod_cases3)
    have fi: "finditer_from r adv bef aft = gs # finditer_from r emp b a"
      by (simp add: finditer_from.simps [of r adv bef aft] Some res)
    from search_mem [OF Some [unfolded res]] "1.prems"(1) have "P gs" by blast
    moreover have "P m" if mem: "m \<in> set (finditer_from r emp b a)"
    proof (rule "1.IH" [OF Some _ _ _ _ _ mem])
      show "(sk, emp, (b, a, gs)) = res" by (simp add: res)
      show "(emp, (b, a, gs)) = (emp, (b, a, gs))" by simp
      show "(b, (a, gs)) = (b, a, gs)" by simp
      show "(a, gs) = (a, gs)" by simp
    next
      fix bef aft b a gs assume "(b, a, gs) \<in> set (rmatch r (bef, aft, []))"
      then show "P gs" by (rule "1.prems"(1))
    qed
    ultimately show ?thesis using "1.prems"(2) fi by auto
  qed
qed

lemma fence_groups:
  "(b, a, gs) \<in> set (rmatch fence_re (bef, aft, [])) \<Longrightarrow> \<exists>t. gs = [(1, t)]"
  by (auto simp: fence_re_def split: list.splits if_splits)

lemma strip_spaces: "list_all isspace t \<Longrightarrow> strip t = []"
proof -
  assume "list_all isspace t"
  then have "dropWhile isspace t = []" by (simp add: list_all_iff)
  then show ?thesis by (simp only: strip_def lstrip_def rstrip_def rev.simps dropWhile.simps)
qed

lemma codearea_blank:
  "group m 1 = Some t \<Longrightarrow> list_all isspace t \<Longrightarrow>
     codearea m v = Inl (ValueError ''max() arg is an empty sequence'')"
  by (simp add: codearea_def strip_spaces splitlines_def)

lemma parse_name_append:
  "parse_name br acc s = Inr (n, c, r) \<Longrightarrow> parse_name br acc (s @ t) = Inr (n, c, r @ t)"
  by (induction br acc s rule: parse_name.induct) (auto split: if_splits)

lemma parse_spec_append:
  "parse_spec n acc s = Inr (sp, r) \<Longrightarrow> parse_spec n acc (s @ t) = Inr (sp, r @ t)"
  by (induction n acc s rule: parse_spec.induct) (auto split: if_splits)

lemma parse_field_append:
  assumes "parse_field s = Inr (name, conv, spec, r)"
  shows "parse_field (s @ t) = Inr (name, conv, spec, r @ t)"
proof -
  from assms obtain n c r1 where pn: "parse_name False [] s = Inr (n, c, r1)"
    by (auto simp: parse_field_def split: sum.splits)
  note pn' = parse_name_append [OF pn, of t]
  show ?thesis
  proof (cases "c = CHR ''}''")
    case True
    with assms pn pn' show ?thesis by (simp add: parse_field_def)
  next
    case nc: False
    show ?thesis
    proof (cases "c = CHR '':''")
      case True
      with nc assms pn obtain sp r2 where ps: "parse_spec 1 [] r1 = Inr (sp, r2)"
        by (auto simp: parse_field_def split: sum.splits)
      from parse_spec_append [OF ps, of t] ps True nc assms pn pn' show ?thesis
        by (simp add: parse_field_def)
    next
      case False
      with nc assms pn obtain cv c2 r3 where r1: "r1 = cv # c2 # r3"
        by (auto simp: parse_field_def split: list.splits)
      show ?thesis
      proof (cases "c2 = CHR ''}''")
        case True
        with False nc assms pn pn' r1 show ?thesis by (simp add: parse_field_def)
      next
        case n2: False
        with False nc assms pn r1 have c2: "c2 = CHR '':''"
          by (auto simp: parse_field_def split: if_splits)
        with n2 False nc assms pn r1 obtain sp r2 where ps: "parse_spec 1 [] r3 = Inr (sp, r2)"
          by (auto simp: parse_field_def split: sum.splits)
        from parse_spec_append [OF ps, of t] ps c2 n2 False nc assms pn pn' r1 show ?thesis
          by (simp add: parse_field_def)
      qed
    qed
  qed
qed


lemma format_from_append:
  "format_from st k args pre = Inr (out, st', k') \<Longrightarrow>
   format_from st k args (pre @ rest) =
     (case format_from st' k' args rest of
        Inl e \<Rightarrow> Inl e
      | Inr (out', st'', k'') \<Rightarrow> Inr (out @ out', st'', k''))"
proof (induction "length pre" arbitrary: pre st k out rule: less_induct)
  case less
  show ?case
  proof (cases pre)
    case Nil
    with less.prems show ?thesis by (auto simp: format_from.simps split: sum.splits)
  next
    case (Cons c cs)
    note pre = Cons
    show ?thesis
    proof (cases "c = CHR ''{''")
      case True
      show ?thesis
      proof (cases cs)
        case Nil
        with True pre less.prems show ?thesis by (simp add: format_from.simps)
      next
        case (Cons d ds)
        show ?thesis
        proof (cases "d = CHR ''{''")
          case dT: True
          from True Cons dT pre less.prems obtain o1 where
            o1: "format_from st k args ds = Inr (o1, st', k')" and out: "out = CHR ''{'' # o1"
            by (auto simp: format_from.simps split: sum.splits)
          have "length ds < length pre" by (simp add: pre Cons)
          from less.hyps [OF this o1] True Cons dT out pre show ?thesis
            by (auto simp: format_from.simps split: sum.splits)
        next
          case dF: False
          from True Cons dF pre less.prems obtain name conv spec r val st1 k1 o1 where
            pf: "parse_field cs = Inr (name, conv, spec, r)" and
            rf: "render_field st k args name conv spec = Inr (val, st1, k1)" and
            o1: "format_from st1 k1 args r = Inr (o1, st', k')" and out: "out = val @ o1"
            by (auto simp: format_from.simps split: sum.splits)
          from parse_field_shorter [OF pf] have "length r < length pre" by (simp add: pre)
          note ih = less.hyps [OF this o1]
          from parse_field_append [OF pf, of rest]
          have pf': "parse_field (cs @ rest) = Inr (name, conv, spec, r @ rest)" .
          have "format_from st k args (c # (cs @ rest)) =
                  (case format_from st1 k1 args (r @ rest) of
                     Inl e \<Rightarrow> Inl e
                   | Inr (out, st'', k'') \<Rightarrow> Inr (val @ out, st'', k''))"
            using True Cons dF pf' rf by (simp add: format_from.simps)
          with ih out pre show ?thesis by (auto split: sum.splits)
        qed
      qed
    next
      case False
      note nb = False
      show ?thesis
      proof (cases "c = CHR ''}''")
        case True
        show ?thesis
        proof (cases cs)
          case Nil
          with True nb pre less.prems show ?thesis by (simp add: format_from.simps)
        next
          case (Cons d ds)
          with True nb pre less.prems have dT: "d = CHR ''}''"
            by (auto simp: format_from.simps split: if_splits)
          from True nb Cons dT pre less.prems obtain o1 where
            o1: "format_from st k args ds = Inr (o1, st', k')" and out: "out = CHR ''}'' # o1"
            by (auto simp: format_from.simps split: sum.splits)
          have "length ds < length pre" by (simp add: pre Cons)
          from less.hyps [OF this o1] True nb Cons dT out pre show ?thesis
            by (auto simp: format_from.simps split: sum.splits)
        qed
      next
        case False
        from False nb pre less.prems obtain o1 where
          o1: "format_from st k args cs = Inr (o1, st', k')" and out: "out = c # o1"
          by (auto simp: format_from.simps split: sum.splits)
        have "length cs < length pre" by (simp add: pre)
        from less.hyps [OF this o1] False nb out pre show ?thesis
          by (auto simp: format_from.simps split: sum.splits)
      qed
    qed
  qed
qed

lemma parse_name_plain:
  "list_all (\<lambda>c. c \<notin> set ''{}[].:!'') name \<Longrightarrow>
     parse_name False acc (name @ CHR ''}'' # post) = Inr (rev acc @ name, CHR ''}'', post)"
  by (induction name arbitrary: acc) auto

lemma parse_field_plain:
  "list_all (\<lambda>c. c \<notin> set ''{}[].:!'') name \<Longrightarrow>
     parse_field (name @ CHR ''}'' # post) = Inr (name, None, [], post)"
  by (simp add: parse_field_def parse_name_plain)

lemma first_part_plain:
  "list_all (\<lambda>c. c \<notin> set ''{}[].:!'') name \<Longrightarrow>
     takeWhile (\<lambda>c. c \<noteq> CHR ''.'' \<and> c \<noteq> CHR ''['') name = name"
proof -
  assume "list_all (\<lambda>c. c \<notin> set ''{}[].:!'') name"
  then have "\<forall>c\<in>set name. c \<noteq> CHR ''.'' \<and> c \<noteq> CHR ''[''"
    by (simp add: list_all_iff)
  then show ?thesis by (simp only: takeWhile_eq_all_conv)
qed

lemma render_field_plain:
  assumes "list_all (\<lambda>c. c \<notin> set ''{}[].:!'') name" and "name \<noteq> []"
  shows "render_field st k args name None [] =
     (case get_integer name of
        Inl e \<Rightarrow> Inl e
      | Inr None \<Rightarrow> Inl (KeyError name)
      | Inr (Some i) \<Rightarrow>
          if st = ANS_AUTO then
            Inl (ValueError ''cannot switch from automatic field numbering to manual field specification'')
          else if length args \<le> i then Inl (IndexError i)
          else Inr (args ! i, ANS_MANUAL, k))"
proof (cases "get_integer name")
  case (Inl e)
  then show ?thesis by (simp add: render_field_def first_part_plain [OF assms(1)])
next
  case (Inr idx)
  show ?thesis
  proof (cases idx)
    case None
    with Inr assms(2) show ?thesis
      by (simp add: render_field_def first_part_plain [OF assms(1)] Let_def)
  next
    case (Some i)
    with Inr assms(2) show ?thesis
      by (cases st) (simp_all add: render_field_def first_part_plain [OF assms(1)] Let_def)
  qed
qed

lemma format_from_token:
  assumes "list_all (\<lambda>c. c \<notin> set ''{}[].:!'') name" and "name \<noteq> []"
  shows "format_from st k args (''{'' @ name @ ''}'' @ post) =
     (case render_field st k args name None [] of
        Inl e \<Rightarrow> Inl e
      | Inr (val, st', k') \<Rightarrow>
          (case format_from st' k' args post of
             Inl e \<Rightarrow> Inl e
           | Inr (out, st'', k'') \<Rightarrow> Inr (val @ out, st'', k'')))"
proof -
  from assms obtain d ds where name: "name = d # ds" and d: "d \<noteq> CHR ''{''"
    by (cases name) auto
  from parse_field_plain [OF assms(1), of post]
  have pf: "parse_field (d # ds @ CHR ''}'' # post) = Inr (name, None, [], post)" by (simp add: name)
  have "format_from st k args (CHR ''{'' # d # ds @ CHR ''}'' # post) =
     (case render_field st k args name None [] of
        Inl e \<Rightarrow> Inl e
      | Inr (val, st', k') \<Rightarrow>
          (case format_from st' k' args post of
             Inl e \<Rightarrow> Inl e
           | Inr (out, st'', k'') \<Rightarrow> Inr (val @ out, st'', k'')))"
    by (subst format_from.simps(2)) (simp add: d pf)
  then show ?thesis by (simp add: name)
qed

lemma get_integer_acc_digits:
  "get_integer_acc a s = Inr (Some i) \<Longrightarrow> list_all isdigit s"
  by (induction a s rule: get_integer_acc.induct) (auto simp: Let_def split: if_splits)

lemma digit_plain: "isdigit c \<Longrightarrow> c \<notin> set ''{}[].:!''"
  by (auto simp: isdigit_def)

lemma get_integer_plain:
  assumes "get_integer name = Inr (Some i)"
  shows "name \<noteq> []" and "list_all (\<lambda>c. c \<notin> set ''{}[].:!'') name"
proof -
  from assms show ne: "name \<noteq> []" by (auto simp: get_integer_def)
  with assms have "list_all isdigit name"
    by (auto simp: get_integer_def dest: get_integer_acc_digits)
  then show "list_all (\<lambda>c. c \<notin> set ''{}[].:!'') name"
    unfolding list_all_iff using digit_plain by blast
qed

subsection \<open>The slugifier\<close>

text \<open>
  The mapping as the specification words it: letters lower-cased, digits kept, every
  white-space character and each of hyphen, underscore and slash turned into a hyphen,
  anything else removed.
\<close>

definition spec_slug_char :: "char \<Rightarrow> string" where
  "spec_slug_char c =
     (if c \<in> set ''abcdefghijklmnopqrstuvwxyz'' then [c]
      else if c \<in> set ''ABCDEFGHIJKLMNOPQRSTUVWXYZ'' then [lower_char c]
      else if c \<in> set ''0123456789'' then [c]
      else if isspace c \<or> c \<in> set ''-_/'' then ''-''
      else [])"

text \<open>The same mapping with the space character as the only white space that is kept.\<close>

definition slug_char :: "char \<Rightarrow> string" where
  "slug_char c =
     (if c \<in> set ''abcdefghijklmnopqrstuvwxyz'' then [c]
      else if c \<in> set ''ABCDEFGHIJKLMNOPQRSTUVWXYZ'' then [lower_char c]
      else if c \<in> set ''0123456789'' then [c]
      else if c \<in> set ''-_/ '' then ''-''
      else [])"

lemma slugify_all: "list_all (\<lambda>c. slugify c = slug_char c) Enum.enum"
  by code_simp

lemma slugify_char: "slugify c = slug_char c"
  using slugify_all by (simp add: list_all_iff enum_UNIV)

text \<open>
  C3, as the code has it. For every heading, the id is the heading's text mapped
  character by character: an ASCII letter to its lower-case form, a digit to itself,
  the space, the hyphen, the underscore and the slash to a hyphen, and every other
  character (a tab or any other white space included) to nothing.
\<close>

theorem heading_slug:
  \<open>heading [(2, t), (1, h)] v =
     Inr (''<h'' @ str_nat (length h) @ '' id="'' @ concat (map slug_char t) @ ''">'' @ t @
          ''</h'' @ str_nat (length h) @ ''>'', v)\<close>
proof -
  have "translate slugify t = concat (map slug_char t)"
    unfolding translate_def by (rule arg_cong [where f = concat]) (simp add: slugify_char)
  then show ?thesis by (simp add: heading_def Let_def)
qed

text \<open>
  C3 as stated fails on a tab: it is white space, the specification's mapping turns it
  into a hyphen, the table drops it.
\<close>

theorem slug_tab_counterexample:
  "isspace (CHR 0x09) \<and>
   concat (map spec_slug_char (''a'' @ [CHR 0x09] @ ''b'')) = ''a-b'' \<and>
   translate slugify (''a'' @ [CHR 0x09] @ ''b'') = ''ab''"
  by code_simp

subsection \<open>The inline resource resolver\<close>

text \<open>
  The extension of a path as the specification uses the word: the text after the last
  dot, none when the path has no dot.
\<close>

definition spec_extension :: "string \<Rightarrow> string" where
  "spec_extension p =
     (if CHR ''.'' \<in> set p then rev (takeWhile (\<lambda>c. c \<noteq> CHR ''.'') (rev p)) else [])"

lemma rules_split_inline:
  "rules fs = take 9 (rules fs) @ (inline_re, Callback (inline fs)) # drop 10 (rules fs)"
  by (simp add: rules_def)

text \<open>
  C4, as the code has it. The test is on the end of the lower-cased path, not on an
  extension: a reference whose path ends with none of \<open>png\<close>, \<open>jpg\<close>, \<open>jpeg\<close>, \<open>gif\<close>,
  \<open>svg\<close>, \<open>py\<close>, \<open>js\<close> makes the resolver raise \<open>RuntimeError\<close> with the path in the
  message, and when it is the first reference that the inline rule meets in the text
  left by the nine rules before it, the conversion ends with that error: no output.
\<close>

theorem inline_unresolvable:
  assumes "apply_rules (take 9 (rules fs)) (''\<newline>'' @ s @ ''\<newline>'') [] = Inr (d, v)"
    and "search inline_re False [] d = Some (sk, emp, (b, a, m))"
    and "group m 2 = Some p"
    and "\<not> endswith (lower p) [''png'', ''jpg'', ''jpeg'', ''gif'', ''svg'', ''py'', ''js'']"
  shows "inline fs m v = Inl (RuntimeError (''Cannot inline <'' @ p @ ''>'')) \<and>
         markup fs s = Inl (RuntimeError (''Cannot inline <'' @ p @ ''>''))"
proof -
  from assms(4) have "\<not> endswith (lower p) [''png'', ''jpg'', ''jpeg'', ''gif'', ''svg'']"
    and "\<not> endswith (lower p) [''py'', ''js'']"
    by (simp_all add: endswith_def)
  with assms(3) have raise: "inline fs m v = Inl (RuntimeError (''Cannot inline <'' @ p @ ''>''))"
    by (simp add: inline_def Let_def)
  then have "expand (Callback (inline fs)) m v = Inl (RuntimeError (''Cannot inline <'' @ p @ ''>''))"
    by simp
  from sub_first_error [OF assms(2) this]
  have "sub inline_re (Callback (inline fs)) d v = Inl (RuntimeError (''Cannot inline <'' @ p @ ''>''))" .
  with assms(1) have "apply_rules (rules fs) (''\<newline>'' @ s @ ''\<newline>'') []
      = Inl (RuntimeError (''Cannot inline <'' @ p @ ''>''))"
    by (subst rules_split_inline) (simp add: apply_rules_append)
  then have "markup fs s = Inl (RuntimeError (''Cannot inline <'' @ p @ ''>''))"
    by (simp add: markup_def)
  with raise show ?thesis by simp
qed

lemma pdf_rules_before_inline:
  "apply_rules (take 9 (rules Map.empty)) (''\<newline>'' @ ''![x](file.pdf)'' @ ''\<newline>'') []
     = Inr (''\<newline>![x](file.pdf)\<newline>'', [])"
  by code_simp

lemma pdf_first_reference:
  "search inline_re False [] ''\<newline>![x](file.pdf)\<newline>''
     = Some (''\<newline>'', False, (rev ''\<newline>![x](file.pdf)'', ''\<newline>'', [(2, ''file.pdf''), (1, ''x'')]))"
  by code_simp

lemma pdf_suffix:
  "\<not> endswith (lower ''file.pdf'') [''png'', ''jpg'', ''jpeg'', ''gif'', ''svg'', ''py'', ''js'']"
  by code_simp

theorem inline_unresolvable_witness:
  "inline Map.empty [(2, ''file.pdf''), (1, ''x'')] [] = Inl (RuntimeError ''Cannot inline <file.pdf>'') \<and>
   markup Map.empty ''![x](file.pdf)'' = Inl (RuntimeError ''Cannot inline <file.pdf>'')"
proof -
  have "group [(2, ''file.pdf''), (1, ''x'')] 2 = Some ''file.pdf''" by simp
  from inline_unresolvable [OF pdf_rules_before_inline pdf_first_reference this pdf_suffix]
  show ?thesis by simp
qed

text \<open>
  C4 as stated fails on \<open>pic.xjpg\<close>: its extension \<open>xjpg\<close> is in neither set, and the
  reference is rendered as an image.
\<close>

theorem inline_xjpg_counterexample:
  \<open>spec_extension ''pic.xjpg'' = ''xjpg'' \<and>
   ''xjpg'' \<notin> set [''png'', ''jpg'', ''jpeg'', ''gif'', ''svg'', ''py'', ''js''] \<and>
   markup Map.empty ''![x](pic.xjpg)'' = Inr ''<img src="pic.xjpg" title="x"/>\<newline>''\<close>
  by code_simp

text \<open>
  C5, as the code has it. The resolver returns the image tag, with the path as \<open>src\<close> and
  the reference text as \<open>title\<close>, and leaves the vault as it is, exactly when the
  lower-cased path ends with one of \<open>png\<close>, \<open>jpg\<close>, \<open>jpeg\<close>, \<open>gif\<close>, \<open>svg\<close>: a test on the
  end of the path, with no dot required before the suffix.
\<close>

theorem inline_image_iff:
  \<open>inline fs [(2, p), (1, title)] v = Inr (''<img src="'' @ p @ ''" title="'' @ title @ ''"/>'', v)
     \<longleftrightarrow> endswith (lower p) [''png'', ''jpg'', ''jpeg'', ''gif'', ''svg'']\<close>
  by (auto simp: inline_def fstr_def Let_def dest: codearea_grows split: option.splits)

text \<open>
  C5 as stated fails on \<open>a.apng\<close>: the extension \<open>apng\<close> is not in the image set, and the
  resolver takes the image branch.
\<close>

theorem inline_apng_counterexample:
  \<open>spec_extension ''a.apng'' = ''apng'' \<and>
   lower ''apng'' \<notin> set [''png'', ''jpg'', ''jpeg'', ''gif'', ''svg''] \<and>
   inline Map.empty [(2, ''a.apng''), (1, ''t'')] [] = Inr (''<img src="a.apng" title="t"/>'', [])\<close>
  by code_simp

subsection \<open>A fenced block of white space\<close>

text \<open>
  C10. For every document in which the fence rule finds a block whose content, the text
  between the triple backticks, is white space only, the conversion raises: \<open>codearea\<close>
  strips the content to the empty string, \<open>splitlines\<close> gives no line, and \<open>max\<close> of
  no line widths is a \<open>ValueError\<close>. No output is produced.
\<close>

theorem blank_fence_raises:
  assumes "m \<in> set (finditer fence_re (''\<newline>'' @ s @ ''\<newline>''))"
    and "group m 1 = Some content"
    and "list_all isspace content"
  shows "markup fs s = Inl (ValueError ''max() arg is an empty sequence'')"
proof -
  let ?E = "ValueError ''max() arg is an empty sequence''"
  have one: "\<And>m'. m' \<in> set (finditer fence_re (''\<newline>'' @ s @ ''\<newline>'')) \<Longrightarrow> \<exists>t. m' = [(1, t)]"
    unfolding finditer_def by (rule finditer_from_all [where r = fence_re]) (rule fence_groups)
  have "sub fence_re (Callback codearea) (''\<newline>'' @ s @ ''\<newline>'') [] = Inl ?E"
    unfolding sub_def
  proof (rule sub_from_raises [where m = m])
    show "m \<in> set (finditer_from fence_re False [] (''\<newline>'' @ s @ ''\<newline>''))"
      using assms(1) by (simp add: finditer_def)
  next
    fix v' show "expand (Callback codearea) m v' = Inl ?E"
      using codearea_blank [OF assms(2,3)] by simp
  next
    fix m' v' e
    assume "m' \<in> set (finditer_from fence_re False [] (''\<newline>'' @ s @ ''\<newline>''))"
      and e: "expand (Callback codearea) m' v' = Inl e"
    then obtain t where "m' = [(1, t)]" using one by (auto simp: finditer_def)
    with e show "e = ?E" by (auto simp: codearea_def Let_def split: list.splits)
  qed
  then show ?thesis by (simp add: markup_def rules_def)
qed

lemma blank_fence_found: "[(1, '' '')] \<in> set (finditer fence_re (''\<newline>'' @ ''``` ```'' @ ''\<newline>''))"
  by code_simp

theorem blank_fence_raises_witness:
  "markup Map.empty ''``` ```'' = Inl (ValueError ''max() arg is an empty sequence'')"
proof -
  have g: "group [(1, '' '')] 1 = Some '' ''" by simp
  have w: "list_all isspace '' ''" by code_simp
  from blank_fence_raises [OF blank_fence_found g w] show ?thesis .
qed


subsection \<open>Resolving the placeholders\<close>

text \<open>
  C7, as the code has it. When the text that reaches the final resolution has, after a
  prefix that resolves, a field \<open>{name}\<close> whose name is not empty, has none of the
  characters \<open>{}[].:!\<close>, and is not the decimal form of an index below the number of
  preserved fragments, the conversion raises: \<open>IndexError\<close> for an index that was never
  preserved (\<open>ValueError\<close> after an automatically numbered field, or for too many digits),
  \<open>KeyError\<close> for a name that is not a number. Doubled braces are not such a field: they
  are the escape of \<open>str.format\<close> for one literal brace.
\<close>

theorem unresolved_field_raises:
  assumes "apply_rules (rules fs) (''\<newline>'' @ s @ ''\<newline>'') [] = Inr (d, blobs)"
    and "strip d = pre @ ''{'' @ name @ ''}'' @ post"
    and "format_from ANS_INIT 0 blobs pre = Inr (out, st, k)"
    and "name \<noteq> []"
    and "list_all (\<lambda>c. c \<notin> set ''{}[].:!'') name"
    and "\<not> (\<exists>i<length blobs. get_integer name = Inr (Some i))"
  shows "markup fs s =
     Inl (case get_integer name of
            Inl e \<Rightarrow> e
          | Inr None \<Rightarrow> KeyError name
          | Inr (Some i) \<Rightarrow>
              if st = ANS_AUTO then
                ValueError ''cannot switch from automatic field numbering to manual field specification''
              else IndexError i)"
proof -
  let ?E = "case get_integer name of
            Inl e \<Rightarrow> e
          | Inr None \<Rightarrow> KeyError name
          | Inr (Some i) \<Rightarrow>
              if st = ANS_AUTO then
                ValueError ''cannot switch from automatic field numbering to manual field specification''
              else IndexError i"
  from assms(6) have "render_field st k blobs name None [] = Inl ?E"
    by (auto simp: render_field_plain [OF assms(5,4)] split: sum.splits option.splits)
  then have "format_from st k blobs (''{'' @ name @ ''}'' @ post) = Inl ?E"
    by (simp only: format_from_token [OF assms(5,4)] sum.case)
  then have "format_from ANS_INIT 0 blobs (pre @ ''{'' @ name @ ''}'' @ post) = Inl ?E"
    by (simp only: format_from_append [OF assms(3)] sum.case)
  then have "format (strip d) blobs = Inl ?E"
    by (simp only: format_def assms(2) sum.case)
  with assms(1) show ?thesis by (simp add: markup_def)
qed

lemma one_rules:
  "apply_rules (rules Map.empty) (''\<newline>'' @ ''{1}'' @ ''\<newline>'') [] = Inr (''\<newline>{1}\<newline>'', [])"
  by code_simp

lemma one_text: "strip ''\<newline>{1}\<newline>'' = [] @ ''{'' @ ''1'' @ ''}'' @ []"
  by code_simp

lemma empty_prefix: "format_from ANS_INIT 0 blobs [] = Inr ([], ANS_INIT, 0)"
  by (simp add: format_from.simps)

lemma one_name: "list_all (\<lambda>c. c \<notin> set ''{}[].:!'') ''1''"
  by simp

lemma one_integer: "get_integer ''1'' = Inr (Some 1)"
  by code_simp

theorem unresolved_field_raises_witness:
  "markup Map.empty ''{1}'' = Inl (IndexError 1)"
proof -
  have ne: "''1'' \<noteq> []" by simp
  have bad: "\<not> (\<exists>i<length ([] :: string list). get_integer ''1'' = Inr (Some i))" by simp
  from unresolved_field_raises [OF one_rules one_text empty_prefix ne one_name bad]
  show ?thesis by (simp add: one_integer)
qed

text \<open>
  C7 as stated fails on \<open>{{0}}\<close>: the text holds the token \<open>{0}\<close>, nothing was preserved,
  and the resolution emits \<open>{0}\<close> with its braces instead of raising.
\<close>

theorem doubled_brace_counterexample:
  "apply_rules (rules Map.empty) (''\<newline>'' @ ''{{0}}'' @ ''\<newline>'') [] = Inr (''\<newline>{{0}}\<newline>'', []) \<and>
   strip ''\<newline>{{0}}\<newline>'' = ''{'' @ ''{0}'' @ ''}'' \<and>
   markup Map.empty ''{{0}}'' = Inr ''{0}\<newline>''"
  by code_simp

text \<open>
  C6, as the code has it. A \<open>{N}\<close> in the text that reaches the final resolution is
  resolved as a placeholder, whoever wrote it: after a prefix that resolves without
  automatic numbering, it is replaced by the fragment preserved under \<open>N\<close> when there is
  one, and the rest of the text is resolved after it; otherwise the conversion raises
  \<open>IndexError\<close>.
\<close>

theorem literal_token_resolved:
  assumes "apply_rules (rules fs) (''\<newline>'' @ s @ ''\<newline>'') [] = Inr (d, blobs)"
    and "strip d = pre @ ''{'' @ name @ ''}'' @ post"
    and "format_from ANS_INIT 0 blobs pre = Inr (out, st, k)"
    and "st \<noteq> ANS_AUTO"
    and "get_integer name = Inr (Some i)"
  shows "markup fs s =
     (if i < length blobs then
        (case format_from ANS_MANUAL k blobs post of
           Inl e \<Rightarrow> Inl e
         | Inr (out', st', k') \<Rightarrow> Inr (out @ blobs ! i @ out' @ ''\<newline>''))
      else Inl (IndexError i))"
proof -
  note plain = get_integer_plain [OF assms(5)]
  let ?R = "if i < length blobs then
        (case format_from ANS_MANUAL k blobs post of
           Inl e \<Rightarrow> Inl e
         | Inr (out', st', k') \<Rightarrow> Inr (out @ blobs ! i @ out', st', k'))
      else Inl (IndexError i)"
  from assms(4,5) have "render_field st k blobs name None [] =
      (if length blobs \<le> i then Inl (IndexError i) else Inr (blobs ! i, ANS_MANUAL, k))"
    by (simp add: render_field_plain [OF plain(2,1)])
  then have "format_from st k blobs (''{'' @ name @ ''}'' @ post) =
      (if i < length blobs then
        (case format_from ANS_MANUAL k blobs post of
           Inl e \<Rightarrow> Inl e
         | Inr (out', st', k') \<Rightarrow> Inr (blobs ! i @ out', st', k'))
      else Inl (IndexError i))"
    by (simp add: format_from_token [OF plain(2,1)] del: append.simps)
  then have "format_from ANS_INIT 0 blobs (pre @ ''{'' @ name @ ''}'' @ post) = ?R"
    by (simp add: format_from_append [OF assms(3)] split: sum.splits del: append.simps)
  then have "format (strip d) blobs =
      (if i < length blobs then
        (case format_from ANS_MANUAL k blobs post of
           Inl e \<Rightarrow> Inl e
         | Inr (out', st', k') \<Rightarrow> Inr (out @ blobs ! i @ out'))
      else Inl (IndexError i))"
    by (simp add: format_def assms(2) split: sum.splits del: append.simps)
  with assms(1) show ?thesis by (simp add: markup_def split: sum.splits)
qed

lemma twice_rules:
  \<open>apply_rules (rules Map.empty) (''\<newline>'' @ ''{0}```a```'' @ ''\<newline>'') [] =
     Inr (''\<newline>{0}{0}\<newline>'', [''<textarea class="codearea" rows="1" cols="2" readonly>a</textarea>''])\<close>
  by code_simp

lemma twice_text: "strip ''\<newline>{0}{0}\<newline>'' = [] @ ''{'' @ ''0'' @ ''}'' @ ''{0}''"
  by code_simp

lemma zero_integer: "get_integer ''0'' = Inr (Some 0)"
  by code_simp

lemma twice_rest:
  \<open>format_from ANS_MANUAL 0 [''<textarea class="codearea" rows="1" cols="2" readonly>a</textarea>''] ''{0}''
     = Inr (''<textarea class="codearea" rows="1" cols="2" readonly>a</textarea>'', ANS_MANUAL, 0)\<close>
  by code_simp

theorem literal_token_resolved_witness:
  \<open>markup Map.empty ''{0}```a```'' =
     Inr (''<textarea class="codearea" rows="1" cols="2" readonly>a</textarea>'' @
          ''<textarea class="codearea" rows="1" cols="2" readonly>a</textarea>'' @ ''\<newline>'')\<close>
proof -
  have st: "ANS_INIT \<noteq> ANS_AUTO" by simp
  from literal_token_resolved [OF twice_rules twice_text empty_prefix st zero_integer]
  show ?thesis by (simp add: twice_rest)
qed

text \<open>
  C6 as stated fails on a fenced block followed by a paragraph \<open>{0}\<close>: the paragraph
  the author typed is replaced by the rendered block.
\<close>

theorem literal_token_counterexample:
  \<open>markup Map.empty ''```a```\<newline>\<newline>{0}'' =
     Inr (''<textarea class="codearea" rows="1" cols="2" readonly>a</textarea>'' @ ''\<newline>\<newline>'' @
          ''<textarea class="codearea" rows="1" cols="2" readonly>a</textarea>'' @ ''\<newline>'')\<close>
  by code_simp

subsection \<open>Bold before italics\<close>



subsection \<open>Fenced code\<close>



subsection \<open>Unordered lists\<close>



subsection \<open>Footnotes\<close>



end
